theory Spec2Isabelle
  imports Complex_Main "HOL-Library.Word" "HOL-Library.AList"
begin

section \<open>S3FIFORocksDB: the three-queue cache of s3fifo\_rocksdb.hpp\<close>

text \<open>
  The class \<open>S3FIFORocksDB\<close> keeps three RocksDB instances (small, main, ghost), three
  atomic 64-bit item counters, a logical clock, and two in-memory tables of access
  information. Its methods are embedded as functions that take the object state and
  return the new one. Keys and values are byte strings. \<open>size_t\<close> and \<open>uint64_t\<close> are
  64-bit words (arithmetic wraps), \<open>int\<close> is a 32-bit word read as signed.
  Logger calls are not part of the model.
\<close>

subsection \<open>The queue backend\<close>

text \<open>
  Modelled from the spec: the RocksDB library (\<open>rocksdb::DB\<close>, its \<open>Put\<close>, \<open>Get\<close>,
  \<open>Delete\<close> and iterator) is an external collaborator and not among the sources. The spec
  (section 4.1) fixes what the engine relies on: a store is an ordered collection of
  key/value pairs; \<open>put\<close> inserts a fresh key behind all others and overwrites a present
  key without changing its position; \<open>get\<close> is a point lookup; \<open>contains\<close> tests
  membership; \<open>delete\<close> removes the key if present; \<open>iter_oldest\<close> returns the first entry
  in insertion order. A store is a list of pairs, oldest first.
  The source tests membership with \<open>Get(ReadOptions(), key, nullptr).ok()\<close>; that call is
  \<open>db_contains\<close>. The iterator positioned by \<open>SeekToFirst\<close> is \<open>db_iter_oldest\<close>.
  Space reclaimed by the store itself (FIFO compaction configured through
  \<open>max_table_files_size\<close>) is outside this model.
\<close>

type_synonym db = "(string \<times> string) list"

definition db_get :: "db \<Rightarrow> string \<Rightarrow> string option" where
  "db_get d k = map_of d k"

definition db_contains :: "db \<Rightarrow> string \<Rightarrow> bool" where
  "db_contains d k = (map_of d k \<noteq> None)"

definition db_put :: "db \<Rightarrow> string \<Rightarrow> string \<Rightarrow> db" where
  "db_put d k v = AList.update k v d"

definition db_delete :: "db \<Rightarrow> string \<Rightarrow> db" where
  "db_delete d k = AList.delete k d"

definition db_iter_oldest :: "db \<Rightarrow> (string \<times> string) option" where
  "db_iter_oldest d = (case d of [] \<Rightarrow> None | kv # _ \<Rightarrow> Some kv)"

definition db_keys :: "db \<Rightarrow> string list" where
  "db_keys d = map fst d"

text \<open>
  \<open>rocksdb::Status\<close> as far as the class reads it: \<open>ok()\<close> holds of \<open>OK\<close> only.
\<close>

datatype Status = OK | NotFound | IOError

text \<open>
  What the outside world decides during one public call: whether the \<open>Put\<close> on each store
  succeeds (each store receives at most one \<open>Put\<close> per public call), and the quotient
  \<open>rand() / RAND_MAX\<close> of the one random draw a call can make. A failing \<open>Put\<close> leaves
  the store as it was. \<open>Get\<close> and \<open>Delete\<close> answer as section 4.1 of the spec describes
  them and do not fail.
\<close>

record env =
  small_put_ok :: bool
  main_put_ok :: bool
  ghost_put_ok :: bool
  rand_draw :: rat

subsection \<open>Values of type double\<close>

text \<open>
  A finite \<open>double\<close> is a pair of a mantissa and an exponent standing for
  \<open>mantissa * 2 ^ exponent\<close>, with a mantissa of at most 53 bits. Each operation computes
  the exact result on integers and rounds it to 53 bits, to nearest and on a tie to the
  even mantissa, as the IEEE 754 default rounding does. Infinities and NaN are not
  represented, and the exponent is not bounded: a result beyond the range of \<open>double\<close>
  is a value no \<open>size_t\<close> can hold, and a result rounded differently in the subnormal
  range lies strictly between -1 and 1, so the conversion to \<open>size_t\<close> below answers as
  it does on the machine.
\<close>

type_synonym double = "int \<times> int"

definition double_value :: "double \<Rightarrow> rat" where
  "double_value d =
     (if 0 \<le> snd d then of_int (fst d * 2 ^ nat (snd d))
      else of_int (fst d) / 2 ^ nat (- snd d))"

fun bit_length :: "nat \<Rightarrow> nat" where
  "bit_length n = (if n = 0 then 0 else Suc (bit_length (n div 2)))"

definition round53 :: "double \<Rightarrow> double" where
  "round53 d =
     (let a = nat \<bar>fst d\<bar>; n = bit_length a
      in if n \<le> 53 then d
         else
           let k = n - 53; q = a div 2 ^ k; r = a mod 2 ^ k; h = 2 ^ (k - 1);
               q' = (if h < r \<or> (r = h \<and> odd q) then q + 1 else q)
           in (sgn (fst d) * int q', snd d + int k))"

text \<open>The conversion of a \<open>size_t\<close> to \<open>double\<close>, the product and the difference.\<close>

definition double_of_size_t :: "64 word \<Rightarrow> double" where
  "double_of_size_t n = round53 (uint n, 0)"

definition double_times :: "double \<Rightarrow> double \<Rightarrow> double" where
  "double_times a b = round53 (fst a * fst b, snd a + snd b)"

definition double_minus :: "double \<Rightarrow> double \<Rightarrow> double" where
  "double_minus a b =
     (let e = min (snd a) (snd b)
      in round53 (fst a * 2 ^ nat (snd a - e) - fst b * 2 ^ nat (snd b - e), e))"

text \<open>
  \<open>static_cast<size_t>\<close> of a \<open>double\<close> truncates towards zero and is defined only when
  the truncated value fits the type; \<open>None\<close> stands for the undefined conversion.
\<close>

definition to_size_t :: "double \<Rightarrow> 64 word option" where
  "to_size_t d =
     (let t = (if 0 \<le> snd d then fst d * 2 ^ nat (snd d)
               else sgn (fst d) * (\<bar>fst d\<bar> div 2 ^ nat (- snd d)))
      in if 0 \<le> t \<and> t < 2 ^ 64 then Some (word_of_int t) else None)"

subsection \<open>Object state\<close>

record AccessInfo =
  count :: "32 word"
  last_access :: "64 word"

record cache =
  small_db :: db
  main_db :: db
  ghost_db :: db
  total_size :: "64 word"
  small_ratio :: double
  ghost_ratio :: double
  small_size :: "64 word"
  main_size :: "64 word"
  ghost_size :: "64 word"
  small_queue_items :: "64 word"
  main_queue_items :: "64 word"
  ghost_queue_items :: "64 word"
  access_count :: "64 word"
  access_tracker :: "string \<rightharpoonup> AccessInfo"
  access_counts :: "string \<rightharpoonup> 32 word"

definition MIN_ACCESS_COUNT :: "32 word" where
  "MIN_ACCESS_COUNT = 2"

definition getAverageValueSize :: "64 word" where
  "getAverageValueSize = 4096"

text \<open>
  \<open>access_counts_[key]\<close> on a \<open>std::unordered_map\<close>: a missing key is inserted with the
  value 0 before it is read.
\<close>

definition counts_touch :: "(string \<rightharpoonup> 32 word) \<Rightarrow> string \<Rightarrow> (string \<rightharpoonup> 32 word)" where
  "counts_touch m k = (case m k of None \<Rightarrow> m(k \<mapsto> 0) | Some c \<Rightarrow> m)"

definition counts_at :: "(string \<rightharpoonup> 32 word) \<Rightarrow> string \<Rightarrow> 32 word" where
  "counts_at m k = (case m k of None \<Rightarrow> 0 | Some c \<Rightarrow> c)"

subsection \<open>Private methods\<close>

text \<open>
  \<open>shouldPromoteToSmall\<close>: a ghost hit returns true at once; otherwise the count is read
  (inserting 0 for a missing key) and, only when it exceeds 1, the random draw is compared
  with 0.01.
\<close>

definition shouldPromoteToSmall :: "string \<Rightarrow> env \<Rightarrow> cache \<Rightarrow> bool \<times> cache" where
  "shouldPromoteToSmall key e s =
     (if db_contains (ghost_db s) key then (True, s)
      else
        let s1 = s\<lparr>access_counts := counts_touch (access_counts s) key\<rparr> in
        if 1 <s counts_at (access_counts s1) key \<and> rand_draw e < 1 / 100
        then (True, s1) else (False, s1))"

text \<open>
  \<open>evictFromMain\<close>: one step, no loop. The first entry of the main store is recorded in the
  ghost store (empty value) when the small store does not hold its key, and is deleted
  from the main store. Nothing is ever deleted from the ghost store here.
\<close>

definition evictFromMain :: "env \<Rightarrow> cache \<Rightarrow> cache" where
  "evictFromMain e s =
     (case db_iter_oldest (main_db s) of
        None \<Rightarrow> s
      | Some (key, val) \<Rightarrow>
          let s1 = (if \<not> db_contains (small_db s) key
                    then s\<lparr>ghost_db := (if ghost_put_ok e then db_put (ghost_db s) key [] else ghost_db s),
                           ghost_queue_items := ghost_queue_items s + 1\<rparr>
                    else s)
          in s1\<lparr>main_db := db_delete (main_db s1) key,
                main_queue_items := main_queue_items s1 - 1\<rparr>)"

text \<open>
  \<open>quickDemotion\<close>: acts only on a key that has an entry in \<open>access_tracker_\<close>. The clock is
  incremented, the age is the wrapped difference, and the count is compared unsigned.
\<close>

definition quickDemotion :: "string \<Rightarrow> env \<Rightarrow> cache \<Rightarrow> cache" where
  "quickDemotion key e s =
     (case access_tracker s key of
        None \<Rightarrow> s
      | Some info \<Rightarrow>
          let current_time = access_count s + 1;
              s1 = s\<lparr>access_count := current_time\<rparr>;
              age = current_time - last_access info
          in if 10000 < age \<or> count info < MIN_ACCESS_COUNT
             then (case db_get (small_db s1) key of
                     None \<Rightarrow> s1
                   | Some val \<Rightarrow>
                       s1\<lparr>main_db := (if main_put_ok e then db_put (main_db s1) key val else main_db s1),
                          small_db := db_delete (small_db s1) key,
                          small_queue_items := small_queue_items s1 - 1,
                          main_queue_items := main_queue_items s1 + 1\<rparr>)
             else s1)"

text \<open>
  \<open>promoteToSmall\<close>: the helper that checks the status of the insert before it touches
  the main store. Only \<open>handleAccess\<close> calls it; the public \<open>get\<close> does not.
\<close>

definition promoteToSmall :: "string \<Rightarrow> string \<Rightarrow> env \<Rightarrow> cache \<Rightarrow> cache" where
  "promoteToSmall key val e s =
     (if small_put_ok e
      then s\<lparr>small_db := db_put (small_db s) key val,
             main_db := db_delete (main_db s) key,
             small_queue_items := small_queue_items s + 1,
             main_queue_items := main_queue_items s - 1\<rparr>
      else s)"

text \<open>
  \<open>evictOldestFromSmall\<close>: removes the first entry of the small store and hands its key
  and value back through the two out-parameters, which stay empty when the store is
  empty.
\<close>

definition evictOldestFromSmall :: "cache \<Rightarrow> (string \<times> string) \<times> cache" where
  "evictOldestFromSmall s =
     (case db_iter_oldest (small_db s) of
        None \<Rightarrow> (([], []), s)
      | Some (key, val) \<Rightarrow>
          ((key, val),
           s\<lparr>small_db := db_delete (small_db s) key,
             small_queue_items := small_queue_items s - 1\<rparr>))"

text \<open>
  \<open>handleCacheMiss\<close>: the item counter is compared with the byte budget as it stands in
  the source. With room, the key goes to the small store with a count of 0; without, the
  oldest small entry moves to the main store when it was counted and to the ghost store
  otherwise, and the new key is not stored.
\<close>

definition handleCacheMiss :: "string \<Rightarrow> string \<Rightarrow> env \<Rightarrow> cache \<Rightarrow> cache" where
  "handleCacheMiss key val e s =
     (if small_queue_items s < small_size s
      then s\<lparr>small_db := (if small_put_ok e then db_put (small_db s) key val else small_db s),
             small_queue_items := small_queue_items s + 1,
             access_counts := (access_counts s)(key \<mapsto> 0)\<rparr>
      else
        (case evictOldestFromSmall s of
           ((evicted_key, evicted_value), s1) \<Rightarrow>
             let s2 = s1\<lparr>access_counts := counts_touch (access_counts s1) evicted_key\<rparr> in
             if 0 <s counts_at (access_counts s2) evicted_key
             then s2\<lparr>main_db := (if main_put_ok e
                                  then db_put (main_db s2) evicted_key evicted_value
                                  else main_db s2),
                      main_queue_items := main_queue_items s2 + 1\<rparr>
             else s2\<lparr>ghost_db := (if ghost_put_ok e
                                   then db_put (ghost_db s2) evicted_key []
                                   else ghost_db s2),
                      ghost_queue_items := ghost_queue_items s2 + 1\<rparr>))"

text \<open>
  \<open>handleAccess\<close>: the private access path that follows the algorithm of the class
  comment. It counts every hit, promotes through \<open>promoteToSmall\<close> and deletes the key from
  the ghost store after a ghost hit. No public method calls it. \<open>val\<close> is the content of
  the caller's string on entry; the result carries its content on exit. The increment of
  the \<open>int\<close> count is a 32-bit addition.
\<close>

definition counts_incr :: "(string \<rightharpoonup> 32 word) \<Rightarrow> string \<Rightarrow> (string \<rightharpoonup> 32 word)" where
  "counts_incr m k = m(k \<mapsto> counts_at m k + 1)"

definition handleAccess :: "string \<Rightarrow> string \<Rightarrow> env \<Rightarrow> cache \<Rightarrow> Status \<times> string \<times> cache" where
  "handleAccess key val e s =
     (case db_get (small_db s) key of
        Some v \<Rightarrow> (OK, v, s\<lparr>access_counts := counts_incr (access_counts s) key\<rparr>)
      | None \<Rightarrow>
          (case db_get (main_db s) key of
             Some v \<Rightarrow>
               let s1 = s\<lparr>access_counts := counts_incr (access_counts s) key\<rparr> in
               if db_contains (ghost_db s1) key
               then let s2 = promoteToSmall key v e s1
                    in (OK, v, s2\<lparr>ghost_db := db_delete (ghost_db s2) key\<rparr>)
               else if 1 <s counts_at (access_counts s1) key \<and> rand_draw e < 1 / 100
               then (OK, v, promoteToSmall key v e s1)
               else (OK, v, s1)
           | None \<Rightarrow> (NotFound, val, handleCacheMiss key val e s)))"

subsection \<open>Public methods\<close>

text \<open>
  \<open>put\<close>: always writes to the main store (returning the error when that fails), counts
  the write, overwrites the small store when it holds the key, and runs one eviction step
  when the counted main size exceeds the budget.
\<close>

definition put :: "string \<Rightarrow> string \<Rightarrow> env \<Rightarrow> cache \<Rightarrow> Status \<times> cache" where
  "put key val e s =
     (if \<not> main_put_ok e then (IOError, s)
      else
        let s1 = s\<lparr>main_db := db_put (main_db s) key val,
                   main_queue_items := main_queue_items s + 1\<rparr>;
            (status, s2) =
               (if db_contains (small_db s1) key
                then (if small_put_ok e
                      then (OK, s1\<lparr>small_db := db_put (small_db s1) key val\<rparr>)
                      else (IOError, s1))
                else (OK, s1));
            s3 = (if main_size s2 < main_queue_items s2 * getAverageValueSize
                  then evictFromMain e s2 else s2)
        in (status, s3))"

text \<open>
  The state of \<open>put\<close> after its writes to the main and the small store and before its
  test of the budget, for a \<open>put\<close> whose write to the main store succeeds.
\<close>

definition put_written :: "string \<Rightarrow> string \<Rightarrow> env \<Rightarrow> cache \<Rightarrow> cache" where
  "put_written key val e s =
     (let s1 = s\<lparr>main_db := db_put (main_db s) key val,
                main_queue_items := main_queue_items s + 1\<rparr>
      in if db_contains (small_db s1) key \<and> small_put_ok e
         then s1\<lparr>small_db := db_put (small_db s1) key val\<rparr> else s1)"

text \<open>
  \<open>get\<close>: the result is the status, the string written through the \<open>value\<close> pointer
  (\<open>None\<close> when nothing was written) and the new state.
\<close>

definition get :: "string \<Rightarrow> env \<Rightarrow> cache \<Rightarrow> Status \<times> string option \<times> cache" where
  "get key e s =
     (case db_get (small_db s) key of
        Some v \<Rightarrow> (OK, Some v, quickDemotion key e s)
      | None \<Rightarrow>
          (case db_get (main_db s) key of
             Some v \<Rightarrow>
               (case shouldPromoteToSmall key e s of
                  (True, s1) \<Rightarrow>
                    (OK, Some v,
                     s1\<lparr>small_db := (if small_put_ok e then db_put (small_db s1) key v else small_db s1),
                        main_db := db_delete (main_db s1) key,
                        small_queue_items := small_queue_items s1 + 1,
                        main_queue_items := main_queue_items s1 - 1\<rparr>)
                | (False, s1) \<Rightarrow> (OK, Some v, s1))
           | None \<Rightarrow> (NotFound, None, s)))"

subsection \<open>Statistics\<close>




subsection \<open>Construction\<close>

text \<open>
  What the file system and the three \<open>rocksdb::DB::Open\<close> calls answer: whether the
  directories could be created, and for each store either the text of the failing status
  or the content the opened store holds.
\<close>

record boot =
  dirs_ok :: bool
  open_small :: "string + db"
  open_main :: "string + db"
  open_ghost :: "string + db"

datatype construction =
    is_Constructed: Constructed (constructed: cache)
  | Runtime_error string
  | Filesystem_error
  | Undefined_conversion

text \<open>
  The constructor: the member initialisers derive the three budgets in \<open>double\<close>
  arithmetic (\<open>total_size * small_ratio\<close>, \<open>total_size * (1.0 - small_ratio)\<close>,
  \<open>total_size * ghost_ratio\<close>, each converted to \<open>size_t\<close>); the body creates the
  directories and opens the small, the main and the ghost store in this order, throwing
  \<open>std::runtime_error\<close> at the first one that does not open. No branch reads
  \<open>small_ratio\<close> or \<open>ghost_ratio\<close>.
\<close>

definition S3FIFORocksDB ::
  "string \<Rightarrow> 64 word \<Rightarrow> double \<Rightarrow> double \<Rightarrow> boot \<Rightarrow> construction" where
  "S3FIFORocksDB path tsize sr gr b =
     (case to_size_t (double_times (double_of_size_t tsize) sr) of
        None \<Rightarrow> Undefined_conversion
      | Some ss \<Rightarrow>
     (case to_size_t (double_times (double_of_size_t tsize) (double_minus (1, 0) sr)) of
        None \<Rightarrow> Undefined_conversion
      | Some ms \<Rightarrow>
     (case to_size_t (double_times (double_of_size_t tsize) gr) of
        None \<Rightarrow> Undefined_conversion
      | Some gs \<Rightarrow>
          if \<not> dirs_ok b then Filesystem_error
          else
     (case open_small b of
        Inl msg \<Rightarrow> Runtime_error (''Failed to open small DB: '' @ msg)
      | Inr sdb \<Rightarrow>
     (case open_main b of
        Inl msg \<Rightarrow> Runtime_error (''Failed to open main DB: '' @ msg)
      | Inr mdb \<Rightarrow>
     (case open_ghost b of
        Inl msg \<Rightarrow> Runtime_error (''Failed to open ghost DB: '' @ msg)
      | Inr gdb \<Rightarrow>
          Constructed
            \<lparr>small_db = sdb, main_db = mdb, ghost_db = gdb,
             total_size = tsize, small_ratio = sr, ghost_ratio = gr,
             small_size = ss, main_size = ms, ghost_size = gs,
             small_queue_items = 0, main_queue_items = 0, ghost_queue_items = 0,
             access_count = 0, access_tracker = Map.empty,
             access_counts = Map.empty\<rparr>))))))"

subsection \<open>Sequences of public calls\<close>

datatype op = Put string string env | Get string env

fun step :: "cache \<Rightarrow> op \<Rightarrow> cache" where
  "step s (Put k v e) = snd (put k v e s)"
| "step s (Get k e) = snd (snd (get k e s))"

definition run :: "op list \<Rightarrow> cache \<Rightarrow> cache" where
  "run ops s = foldl step s ops"

subsection \<open>Predicates on states and concrete runs\<close>

text \<open>A key is resident when the small or the main store holds it.\<close>

definition resident :: "string \<Rightarrow> cache \<Rightarrow> bool" where
  "resident k s = (db_contains (small_db s) k \<or> db_contains (main_db s) k)"

text \<open>
  The eviction step of \<open>put(k, v)\<close> on the state \<open>s\<close> removes \<open>k\<close> itself from the main
  store: the counted size exceeds the budget once the write is counted, and \<open>k\<close> is then
  the first entry of the main store, which it is when the main store of \<open>s\<close> is empty or
  has \<open>k\<close> as its first key.
\<close>

definition put_evicts :: "string \<Rightarrow> cache \<Rightarrow> bool" where
  "put_evicts k s =
     (main_size s < (main_queue_items s + 1) * getAverageValueSize
      \<and> (case db_iter_oldest (main_db s) of None \<Rightarrow> True | Some (k0, v0) \<Rightarrow> k0 = k))"

text \<open>No key is held by the small and the main store at once.\<close>

definition disjoint_SM :: "cache \<Rightarrow> bool" where
  "disjoint_SM s = (set (db_keys (small_db s)) \<inter> set (db_keys (main_db s)) = {})"

text \<open>
  The invariant behind the budget of the main queue: the counter times the average value
  size is within \<open>main_size_\<close>, the counter is not below the number of entries of the main
  store, nothing is tracked in \<open>access_tracker_\<close>, and the budget is far enough from
  \<open>2^64\<close> for the product in \<open>put\<close> not to wrap.
\<close>

definition budget_inv :: "cache \<Rightarrow> bool" where
  "budget_inv s =
     (unat (main_queue_items s) * 4096 \<le> unat (main_size s)
      \<and> length (main_db s) \<le> unat (main_queue_items s)
      \<and> access_tracker s = Map.empty
      \<and> unat (main_size s) + 4096 < 2 ^ 64)"

text \<open>Environments: every \<open>Put\<close> succeeds; the \<open>Put\<close> on the small store fails.\<close>

definition env_ok :: env where
  "env_ok = \<lparr>small_put_ok = True, main_put_ok = True, ghost_put_ok = True, rand_draw = 1 / 2\<rparr>"

definition env_small_fails :: env where
  "env_small_fails =
     \<lparr>small_put_ok = False, main_put_ok = True, ghost_put_ok = True, rand_draw = 1 / 2\<rparr>"

definition boot_ok :: boot where
  "boot_ok = \<lparr>dirs_ok = True, open_small = Inr [], open_main = Inr [], open_ghost = Inr []\<rparr>"

text \<open>
  The cache the constructor returns for 16384 bytes with a quarter for the small queue
  and a quarter for the ghost queue on empty directories (\<open>demo_cache_constructed\<close>
  below): with 4096 bytes per item the small and the ghost queue have room for one item
  and the main queue for three.
\<close>

definition demo_cache :: cache where
  "demo_cache =
     \<lparr>small_db = [], main_db = [], ghost_db = [],
      total_size = 16384, small_ratio = (1, - 2), ghost_ratio = (1, - 2),
      small_size = 4096, main_size = 12288, ghost_size = 4096,
      small_queue_items = 0, main_queue_items = 0, ghost_queue_items = 0,
      access_count = 0, access_tracker = Map.empty,
      access_counts = Map.empty\<rparr>"

text \<open>Three inserts fill the main queue without any eviction.\<close>

definition ops_three :: "op list" where
  "ops_three =
     [Put ''A'' ''a'' env_ok, Put ''B'' ''b'' env_ok, Put ''C'' ''c'' env_ok]"

text \<open>
  Five inserts: the fourth and the fifth evict A and B from the main queue into the ghost
  queue.
\<close>

definition ops_fill :: "op list" where
  "ops_fill =
     [Put ''A'' ''a'' env_ok, Put ''B'' ''b'' env_ok, Put ''C'' ''c'' env_ok,
      Put ''D'' ''d'' env_ok, Put ''E'' ''e'' env_ok]"

text \<open>A is inserted again: it is now in the main queue and in the ghost queue.\<close>

definition ops_ghost :: "op list" where
  "ops_ghost = ops_fill @ [Put ''A'' ''a2'' env_ok]"

text \<open>A is read: the ghost hit moves it to the small queue.\<close>

definition ops_promoted :: "op list" where
  "ops_promoted = ops_ghost @ [Get ''A'' env_ok]"

text \<open>B is inserted again and read: a second ghost hit.\<close>

definition ops_two_small :: "op list" where
  "ops_two_small = ops_promoted @ [Put ''B'' ''b2'' env_ok, Get ''B'' env_ok]"

text \<open>A is overwritten while it is in the small queue.\<close>

definition ops_overwrite :: "op list" where
  "ops_overwrite = ops_promoted @ [Put ''A'' ''a3'' env_ok]"

declare bit_length.simps [simp del]

lemmas model_defs =
  put_def get_def evictFromMain_def shouldPromoteToSmall_def quickDemotion_def
  promoteToSmall_def handleAccess_def handleCacheMiss_def evictOldestFromSmall_def
  counts_incr_def db_put_def db_get_def db_contains_def db_delete_def
  db_iter_oldest_def db_keys_def getAverageValueSize_def MIN_ACCESS_COUNT_def
  counts_touch_def counts_at_def run_def put_written_def put_evicts_def resident_def
  Let_def
  word_sless_alt

lemmas demo_defs =
  demo_cache_def ops_three_def ops_fill_def ops_ghost_def ops_promoted_def ops_two_small_def
  ops_overwrite_def env_ok_def env_small_fails_def

lemmas double_defs =
  round53_def double_of_size_t_def double_times_def double_minus_def to_size_t_def
  double_value_def bit_length.simps

section \<open>Facts about the backend and the private methods\<close>

lemma db_get_put: "db_get (db_put d k v) j = (if j = k then Some v else db_get d j)"
  by (simp add: db_get_def db_put_def update_conv')

lemma db_get_delete: "db_get (db_delete d k) j = (if j = k then None else db_get d j)"
  by (simp add: db_get_def db_delete_def delete_conv')

lemma db_contains_get: "db_contains d k = (db_get d k \<noteq> None)"
  by (simp add: db_contains_def db_get_def)

lemma db_contains_put: "db_contains (db_put d k v) j = (j = k \<or> db_contains d j)"
  by (simp add: db_contains_get db_get_put)

lemma db_contains_delete: "db_contains (db_delete d k) j = (j \<noteq> k \<and> db_contains d j)"
  by (simp add: db_contains_get db_get_delete)

lemma db_contains_keys: "db_contains d k = (k \<in> set (db_keys d))"
  by (simp add: db_contains_def db_keys_def map_of_eq_None_iff)

lemma length_db_put: "length (db_put d k v) \<le> Suc (length d)"
  unfolding db_put_def by (induction d) auto

lemma length_db_delete_le: "length (db_delete d k) \<le> length d"
  unfolding db_delete_def by (induction d) auto

lemma length_db_delete_less:
  "db_get d k = Some v \<Longrightarrow> length (db_delete d k) < length d"
  unfolding db_delete_def db_get_def
proof (induction d)
  case Nil
  then show ?case by simp
next
  case (Cons p d)
  have "length (AList.delete k d) \<le> length d"
    using length_db_delete_le [of d k] by (simp add: db_delete_def)
  with Cons show ?case by (auto split: if_splits)
qed

lemma db_put_nonempty: "db_put d k v \<noteq> []"
  unfolding db_put_def by (cases d) auto

lemma db_iter_oldest_get:
  "db_iter_oldest d = Some (k, v) \<Longrightarrow> db_get d k = Some v"
  by (auto simp: db_iter_oldest_def db_get_def split: list.splits)

lemma db_iter_oldest_None: "db_iter_oldest d = None \<Longrightarrow> d = []"
  by (auto simp: db_iter_oldest_def split: list.splits)

lemma db_iter_oldest_put: "\<exists>k v. db_iter_oldest (db_put d key val) = Some (k, v)"
  by (cases d) (auto simp: db_iter_oldest_def db_put_def)

lemma small_db_evictFromMain: "small_db (evictFromMain e s) = small_db s"
  by (simp add: evictFromMain_def Let_def split: option.splits prod.splits)

lemma db_get_main_evictFromMain:
  "db_contains (main_db (evictFromMain e s)) k \<Longrightarrow>
   db_get (main_db (evictFromMain e s)) k = db_get (main_db s) k"
  by (auto simp: evictFromMain_def Let_def db_contains_get db_get_delete
           split: option.splits prod.splits if_splits)

lemma quickDemotion_untracked: "access_tracker s k = None \<Longrightarrow> quickDemotion k e s = s"
  by (simp add: quickDemotion_def)

lemma shouldPromoteToSmall_fields:
  "main_db (snd (shouldPromoteToSmall k e s)) = main_db s"
  "small_db (snd (shouldPromoteToSmall k e s)) = small_db s"
  "ghost_db (snd (shouldPromoteToSmall k e s)) = ghost_db s"
  "main_size (snd (shouldPromoteToSmall k e s)) = main_size s"
  "main_queue_items (snd (shouldPromoteToSmall k e s)) = main_queue_items s"
  "small_queue_items (snd (shouldPromoteToSmall k e s)) = small_queue_items s"
  "access_tracker (snd (shouldPromoteToSmall k e s)) = access_tracker s"
  by (simp_all add: shouldPromoteToSmall_def Let_def)

section \<open>Round trip of put and get\<close>

lemma put_OK_small_value:
  assumes "fst (put k v e s) = OK" and "db_contains (small_db (snd (put k v e s))) k"
  shows "db_get (small_db (snd (put k v e s))) k = Some v"
  using assms
  by (auto simp: put_def Let_def small_db_evictFromMain db_get_put db_contains_put
           split: if_splits)

lemma put_OK_main_value:
  assumes "fst (put k v e s) = OK" and "db_contains (main_db (snd (put k v e s))) k"
  shows "db_get (main_db (snd (put k v e s))) k = Some v"
  using assms
  by (auto simp: put_def Let_def db_get_main_evictFromMain db_get_put
           split: if_splits)

lemma get_small_hit:
  "db_get (small_db s) k = Some v \<Longrightarrow> fst (get k e s) = OK \<and> fst (snd (get k e s)) = Some v"
  by (simp add: get_def)

lemma get_main_hit:
  "db_get (small_db s) k = None \<Longrightarrow> db_get (main_db s) k = Some v \<Longrightarrow>
   fst (get k e s) = OK \<and> fst (snd (get k e s)) = Some v"
  by (auto simp: get_def split: prod.splits bool.splits)

lemma put_then_get:
  assumes ok: "fst (put k v e s) = OK" and res: "resident k (snd (put k v e s))"
  shows "fst (get k e' (snd (put k v e s))) = OK
         \<and> fst (snd (get k e' (snd (put k v e s)))) = Some v"
proof (cases "db_contains (small_db (snd (put k v e s))) k")
  case True
  with ok have "db_get (small_db (snd (put k v e s))) k = Some v"
    by (rule put_OK_small_value)
  then show ?thesis by (rule get_small_hit)
next
  case False
  with res have "db_contains (main_db (snd (put k v e s))) k"
    by (simp add: resident_def)
  with ok have "db_get (main_db (snd (put k v e s))) k = Some v"
    by (rule put_OK_main_value)
  moreover from False have "db_get (small_db (snd (put k v e s))) k = None"
    by (simp add: db_contains_get)
  ultimately show ?thesis by (simp add: get_main_hit)
qed

lemma put_status_OK:
  assumes "main_put_ok e" and "db_contains (small_db s) k \<longrightarrow> small_put_ok e"
  shows "fst (put k v e s) = OK"
  using assms by (simp add: put_def Let_def split: prod.splits)

lemma small_contains_put:
  "db_contains (small_db (snd (put k v e s))) j = db_contains (small_db s) j"
  by (auto simp: put_def Let_def small_db_evictFromMain db_contains_put)

lemma db_iter_oldest_put_key:
  "db_iter_oldest (db_put d k v) = Some (k0, v0) \<Longrightarrow>
   (k0 = k) = (case db_iter_oldest d of None \<Rightarrow> True | Some (k1, v1) \<Rightarrow> k1 = k)"
  by (cases d) (auto simp: db_iter_oldest_def db_put_def split: if_splits)

lemma put_keeps_key_iff:
  assumes ok: "main_put_ok e"
  shows "db_contains (main_db (snd (put k v e s))) k = (\<not> put_evicts k s)"
proof (cases "main_size s < (main_queue_items s + 1) * getAverageValueSize")
  case False
  then show ?thesis
    using ok by (simp add: put_def Let_def put_evicts_def db_contains_put)
next
  case over: True
  obtain k0 v0 where
    first: "db_iter_oldest (db_put (main_db s) k v) = Some (k0, v0)"
    using db_iter_oldest_put [of "main_db s" k v] by auto
  have key: "(k0 = k) = (case db_iter_oldest (main_db s) of None \<Rightarrow> True
      | Some (k1, v1) \<Rightarrow> k1 = k)"
    using first by (rule db_iter_oldest_put_key)
  have "db_contains (main_db (snd (put k v e s))) k = (k \<noteq> k0)"
    using ok over first
    by (auto simp: put_def Let_def evictFromMain_def db_contains_put db_contains_delete)
  with over key show ?thesis by (auto simp: put_evicts_def)
qed

lemma put_then_get_from_input:
  assumes ok: "main_put_ok e"
    and small_ok: "db_contains (small_db s) k \<longrightarrow> small_put_ok e"
    and proviso: "db_contains (small_db s) k \<or> \<not> put_evicts k s"
  shows "fst (put k v e s) = OK
         \<and> fst (get k e' (snd (put k v e s))) = OK
         \<and> fst (snd (get k e' (snd (put k v e s)))) = Some v"
proof -
  have status: "fst (put k v e s) = OK"
    using ok small_ok by (rule put_status_OK)
  have "resident k (snd (put k v e s))"
    using proviso put_keeps_key_iff [OF ok, of k v s] small_contains_put [of k v e s k]
    by (auto simp: resident_def)
  with status show ?thesis using put_then_get [of k v e s e'] by simp
qed

text \<open>
  C6. Take a \<open>put(k, v)\<close> whose writes succeed (the write to the main store, and the write
  to the small store when the small store holds \<open>k\<close>) and whose eviction step does not
  remove \<open>k\<close>: \<open>k\<close> is in the small queue, which \<open>put\<close> never evicts from, or the step
  does not run, or it removes another key. Then the \<open>put\<close> returns OK and a \<open>get(k)\<close>
  right after it returns OK and the value \<open>v\<close>. The conditions are on the state before
  the \<open>put\<close>; \<open>put_keeps_key_iff\<close> shows that \<open>put_evicts\<close> is exactly the case in which
  the eviction removes \<open>k\<close> from the main queue. In particular after \<open>put(j, v1)\<close> and
  \<open>put(j, v2)\<close> a \<open>get(j)\<close> returns \<open>v2\<close>, under the same conditions for the second
  \<open>put\<close>; and for a key \<open>i\<close> that is in the small queue before the two \<open>put\<close> calls the
  \<open>get(i)\<close> returns the second value whenever the writes of the second \<open>put\<close> succeed.
\<close>

theorem put_get_round_trip:
  "(main_put_ok e \<and> (db_contains (small_db s) k \<longrightarrow> small_put_ok e)
      \<and> (db_contains (small_db s) k \<or> \<not> put_evicts k s) \<longrightarrow>
      fst (put k v e s) = OK
      \<and> fst (get k e' (snd (put k v e s))) = OK
      \<and> fst (snd (get k e' (snd (put k v e s)))) = Some v)
   \<and> (main_put_ok e2 \<and> (db_contains (small_db t) j \<longrightarrow> small_put_ok e2)
      \<and> (db_contains (small_db t) j \<or> \<not> put_evicts j (snd (put j v1 e1 t))) \<longrightarrow>
      fst (put j v2 e2 (snd (put j v1 e1 t))) = OK
      \<and> fst (get j e'' (snd (put j v2 e2 (snd (put j v1 e1 t))))) = OK
      \<and> fst (snd (get j e'' (snd (put j v2 e2 (snd (put j v1 e1 t)))))) = Some v2)
   \<and> (db_contains (small_db u) i \<and> main_put_ok f2 \<and> small_put_ok f2 \<longrightarrow>
      fst (put i w2 f2 (snd (put i w1 f1 u))) = OK
      \<and> fst (get i f3 (snd (put i w2 f2 (snd (put i w1 f1 u))))) = OK
      \<and> fst (snd (get i f3 (snd (put i w2 f2 (snd (put i w1 f1 u)))))) = Some w2)"
proof (intro conjI impI)
  assume "main_put_ok e \<and> (db_contains (small_db s) k \<longrightarrow> small_put_ok e)
      \<and> (db_contains (small_db s) k \<or> \<not> put_evicts k s)"
  then have a: "fst (put k v e s) = OK
         \<and> fst (get k e' (snd (put k v e s))) = OK
         \<and> fst (snd (get k e' (snd (put k v e s)))) = Some v"
    using put_then_get_from_input [of e s k v e'] by blast
  from a show "fst (put k v e s) = OK" by simp
  from a show "fst (get k e' (snd (put k v e s))) = OK" by simp
  from a show "fst (snd (get k e' (snd (put k v e s)))) = Some v" by simp
next
  assume h: "main_put_ok e2 \<and> (db_contains (small_db t) j \<longrightarrow> small_put_ok e2)
      \<and> (db_contains (small_db t) j \<or> \<not> put_evicts j (snd (put j v1 e1 t)))"
  have c: "db_contains (small_db (snd (put j v1 e1 t))) j = db_contains (small_db t) j"
    by (rule small_contains_put)
  have b: "fst (put j v2 e2 (snd (put j v1 e1 t))) = OK
      \<and> fst (get j e'' (snd (put j v2 e2 (snd (put j v1 e1 t))))) = OK
      \<and> fst (snd (get j e'' (snd (put j v2 e2 (snd (put j v1 e1 t)))))) = Some v2"
    using h c put_then_get_from_input [of e2 "snd (put j v1 e1 t)" j v2 e''] by blast
  from b show "fst (put j v2 e2 (snd (put j v1 e1 t))) = OK" by simp
  from b show "fst (get j e'' (snd (put j v2 e2 (snd (put j v1 e1 t))))) = OK" by simp
  from b show "fst (snd (get j e'' (snd (put j v2 e2 (snd (put j v1 e1 t)))))) = Some v2"
    by simp
next
  assume h: "db_contains (small_db u) i \<and> main_put_ok f2 \<and> small_put_ok f2"
  have c: "db_contains (small_db (snd (put i w1 f1 u))) i = db_contains (small_db u) i"
    by (rule small_contains_put)
  have b: "fst (put i w2 f2 (snd (put i w1 f1 u))) = OK
      \<and> fst (get i f3 (snd (put i w2 f2 (snd (put i w1 f1 u))))) = OK
      \<and> fst (snd (get i f3 (snd (put i w2 f2 (snd (put i w1 f1 u)))))) = Some w2"
    using h c put_then_get_from_input [of f2 "snd (put i w1 f1 u)" i w2 f3] by blast
  from b show "fst (put i w2 f2 (snd (put i w1 f1 u))) = OK" by simp
  from b show "fst (get i f3 (snd (put i w2 f2 (snd (put i w1 f1 u))))) = OK" by simp
  from b show "fst (snd (get i f3 (snd (put i w2 f2 (snd (put i w1 f1 u)))))) = Some w2"
    by simp
qed

text \<open>
  Three round trips. D is new to a cache whose main queue is full: the eviction step
  runs and removes A, not D. K is written twice to the empty cache. A is overwritten
  twice while it sits in the small queue.
\<close>

theorem put_get_round_trip_witness:
  "main_put_ok env_ok \<and> small_put_ok env_ok
   \<and> \<not> db_contains (small_db (run ops_three demo_cache)) ''D''
   \<and> \<not> put_evicts ''D'' (run ops_three demo_cache)
   \<and> main_size (run ops_three demo_cache)
       < (main_queue_items (run ops_three demo_cache) + 1) * getAverageValueSize
   \<and> fst (put ''D'' ''d'' env_ok (run ops_three demo_cache)) = OK
   \<and> fst (snd (get ''D'' env_ok (snd (put ''D'' ''d'' env_ok (run ops_three demo_cache)))))
       = Some ''d''
   \<and> \<not> db_contains (small_db demo_cache) ''K''
   \<and> \<not> put_evicts ''K'' (snd (put ''K'' ''v1'' env_ok demo_cache))
   \<and> fst (get ''K'' env_ok (snd (put ''K'' ''v2'' env_ok (snd (put ''K'' ''v1'' env_ok demo_cache)))))
       = OK
   \<and> fst (snd (get ''K'' env_ok
        (snd (put ''K'' ''v2'' env_ok (snd (put ''K'' ''v1'' env_ok demo_cache))))))
       = Some ''v2''
   \<and> db_contains (small_db (run ops_promoted demo_cache)) ''A''
   \<and> fst (snd (get ''A'' env_ok
        (snd (put ''A'' ''v2'' env_ok (snd (put ''A'' ''v1'' env_ok (run ops_promoted demo_cache)))))))
       = Some ''v2''"
  using put_get_round_trip [where k = "''D''" and v = "''d''" and e = env_ok
      and s = "run ops_three demo_cache" and e' = env_ok
      and j = "''K''" and ?v1.0 = "''v1''" and ?v2.0 = "''v2''" and ?e1.0 = env_ok
      and ?e2.0 = env_ok and t = demo_cache and e'' = env_ok
      and i = "''A''" and ?w1.0 = "''v1''" and ?w2.0 = "''v2''" and ?f1.0 = env_ok
      and ?f2.0 = env_ok and ?f3.0 = env_ok and u = "run ops_promoted demo_cache"]
  by (simp add: model_defs demo_defs)

section \<open>The reported hit ratio\<close>











section \<open>Construction\<close>

lemma demo_cache_constructed:
  "S3FIFORocksDB ''/tmp/cache'' 16384 (1, - 2) (1, - 2) boot_ok = Constructed demo_cache"
  by (simp add: S3FIFORocksDB_def double_defs boot_ok_def demo_cache_def)

text \<open>
  The configuration of \<open>runPaperExample\<close> in example.cpp: ten objects of one megabyte with
  both ratios \<open>0.1\<close>, the \<open>double\<close> nearest to one tenth being
  \<open>3602879701896397 / 2^55\<close>. The rounded arithmetic gives a main budget of 9437184
  bytes, where the exact product would truncate to 9437183.
\<close>

lemma paper_example_budgets:
  "S3FIFORocksDB path 10485760 (3602879701896397, - 55) (3602879701896397, - 55) boot_ok =
     Constructed
       \<lparr>small_db = [], main_db = [], ghost_db = [],
        total_size = 10485760, small_ratio = (3602879701896397, - 55),
        ghost_ratio = (3602879701896397, - 55),
        small_size = 1048576, main_size = 9437184, ghost_size = 1048576,
        small_queue_items = 0, main_queue_items = 0, ghost_queue_items = 0,
        access_count = 0, access_tracker = Map.empty,
        access_counts = Map.empty\<rparr>"
  by (simp add: S3FIFORocksDB_def double_defs boot_ok_def)

text \<open>
  The rounding at work: a mantissa of at most 53 bits is kept, a tie goes to the even
  mantissa, and a thousand bytes at a small ratio of \<open>0.1\<close> leave 900 for the main
  queue, not the 899 of the exact product.
\<close>

lemma round53_short_mantissa: "bit_length (nat \<bar>m\<bar>) \<le> 53 \<Longrightarrow> round53 (m, e) = (m, e)"
  by (simp add: round53_def)

lemma round53_ties_to_even:
  "round53 (9007199254740993, 0) = (4503599627370496, 1)
   \<and> round53 (9007199254740995, 0) = (4503599627370498, 1)
   \<and> round53 (- 9007199254740995, 0) = (- 4503599627370498, 1)"
  by (simp add: double_defs)

lemma thousand_bytes_main_budget:
  "to_size_t (double_times (double_of_size_t 1000)
      (double_minus (1, 0) (3602879701896397, - 55))) = Some 900
   \<and> 899 \<le> 1000 * (1 - double_value (3602879701896397, - 55))
   \<and> 1000 * (1 - double_value (3602879701896397, - 55)) < 900"
  by (simp add: double_defs)

lemma constructed_on_empty_main:
  assumes "S3FIFORocksDB path tsize sr gr b = Constructed c" and "open_main b = Inr []"
  shows "main_db c = [] \<and> main_queue_items c = 0 \<and> access_tracker c = Map.empty
         \<and> access_counts c = Map.empty"
  using assms
  by (auto simp: S3FIFORocksDB_def split: option.splits sum.splits if_splits)

text \<open>
  C7, as the code has it. The constructor does not validate \<open>small_ratio\<close> or
  \<open>ghost_ratio\<close>: whenever the three conversions to \<open>size_t\<close> are defined, it returns a
  cache exactly when the directories can be created and the three stores open, and the
  cache it returns carries the three converted products as budgets. It is fatal only
  through a failing directory creation or a failing \<open>DB::Open\<close>.
\<close>

theorem construction_ignores_ratios:
  assumes "to_size_t (double_times (double_of_size_t tsize) sr) = Some ss"
    and "to_size_t (double_times (double_of_size_t tsize) (double_minus (1, 0) sr)) = Some ms"
    and "to_size_t (double_times (double_of_size_t tsize) gr) = Some gs"
  shows "is_Constructed (S3FIFORocksDB path tsize sr gr b) =
           (dirs_ok b \<and> \<not> isl (open_small b) \<and> \<not> isl (open_main b) \<and> \<not> isl (open_ghost b))
         \<and> (is_Constructed (S3FIFORocksDB path tsize sr gr b) \<longrightarrow>
              small_size (constructed (S3FIFORocksDB path tsize sr gr b)) = ss
              \<and> main_size (constructed (S3FIFORocksDB path tsize sr gr b)) = ms
              \<and> ghost_size (constructed (S3FIFORocksDB path tsize sr gr b)) = gs)"
  using assms
  by (simp add: S3FIFORocksDB_def split: sum.splits)

text \<open>
  With a quarter for the small and the ghost queue all three conversions are defined; the
  cache is returned when everything opens and not when the main store fails to open.
\<close>

theorem construction_ignores_ratios_witness:
  "to_size_t (double_times (double_of_size_t 16384) (1, - 2)) = Some 4096
   \<and> to_size_t (double_times (double_of_size_t 16384) (double_minus (1, 0) (1, - 2)))
       = Some 12288
   \<and> is_Constructed (S3FIFORocksDB ''/tmp/cache'' 16384 (1, - 2) (1, - 2) boot_ok)
   \<and> main_size (constructed (S3FIFORocksDB ''/tmp/cache'' 16384 (1, - 2) (1, - 2) boot_ok))
       = 12288
   \<and> \<not> is_Constructed (S3FIFORocksDB ''/tmp/cache'' 16384 (1, - 2) (1, - 2)
          (boot_ok\<lparr>open_main := Inl ''IO error''\<rparr>))"
proof -
  have h1: "to_size_t (double_times (double_of_size_t 16384) (1, - 2)) = Some 4096"
    by (simp add: double_defs)
  have h2: "to_size_t (double_times (double_of_size_t 16384) (double_minus (1, 0) (1, - 2)))
       = Some 12288"
    by (simp add: double_defs)
  show ?thesis
    using h1 h2
      construction_ignores_ratios [OF h1 h2 h1, of "''/tmp/cache''" boot_ok]
      construction_ignores_ratios [OF h1 h2 h1, of "''/tmp/cache''"
        "boot_ok\<lparr>open_main := Inl ''IO error''\<rparr>"]
    by (simp add: boot_ok_def)
qed

text \<open>
  C7 as stated fails: \<open>small_ratio = 1.0\<close> lies outside \<open>(0, 1)\<close> and
  \<open>ghost_ratio = 2.0\<close> outside \<open>(0, 1]\<close>, and the constructor still returns a cache,
  with a main budget of 0.
\<close>

theorem construction_accepts_bad_ratios:
  "double_value (1, 0) = 1 \<and> double_value (1, 1) = 2
   \<and> \<not> (0 < double_value (1, 0) \<and> double_value (1, 0) < 1)
   \<and> \<not> (0 < double_value (1, 1) \<and> double_value (1, 1) \<le> 1)
   \<and> is_Constructed (S3FIFORocksDB ''/tmp/cache'' 16384 (1, 0) (1, 1) boot_ok)
   \<and> small_size (constructed (S3FIFORocksDB ''/tmp/cache'' 16384 (1, 0) (1, 1) boot_ok)) = 16384
   \<and> main_size (constructed (S3FIFORocksDB ''/tmp/cache'' 16384 (1, 0) (1, 1) boot_ok)) = 0
   \<and> ghost_size (constructed (S3FIFORocksDB ''/tmp/cache'' 16384 (1, 0) (1, 1) boot_ok)) = 32768"
  by (simp add: S3FIFORocksDB_def double_defs boot_ok_def)

section \<open>Queue budgets\<close>

lemma unat_succ_budget:
  fixes c m :: "64 word"
  assumes "unat c * 4096 \<le> unat m" and "unat m + 4096 < 2 ^ 64"
  shows "unat (c + 1) = Suc (unat c)"
    and "unat ((c + 1) * 4096) = Suc (unat c) * 4096"
proof -
  have "unat c + unat (1 :: 64 word) < 2 ^ LENGTH(64)" using assms by simp
  then have "unat (c + 1) = unat c + unat (1 :: 64 word)" by (simp only: unat_add_lem)
  then show a: "unat (c + 1) = Suc (unat c)" by simp
  have "unat (c + 1) * unat (4096 :: 64 word) < 2 ^ LENGTH(64)" using assms a by simp
  then have "unat ((c + 1) * 4096) = unat (c + 1) * unat (4096 :: 64 word)"
    by (simp only: unat_mult_lem)
  with a show "unat ((c + 1) * 4096) = Suc (unat c) * 4096" by simp
qed

lemma unat_times_budget:
  fixes c m :: "64 word"
  assumes "unat c * 4096 \<le> unat m"
  shows "unat (c * 4096) = unat c * 4096"
proof -
  have "unat m < 2 ^ LENGTH(64)" by (rule unsigned_less)
  with assms have "unat c * unat (4096 :: 64 word) < 2 ^ LENGTH(64)" by simp
  then have "unat (c * 4096) = unat c * unat (4096 :: 64 word)"
    by (simp only: unat_mult_lem)
  then show ?thesis by simp
qed

lemma unat_pred_pos:
  fixes c :: "64 word"
  assumes "0 < unat c"
  shows "unat (c - 1) = unat c - 1"
proof -
  from assms have "c \<noteq> 0" by auto
  then show ?thesis by (rule unat_minus_one)
qed

lemma budget_inv_evict:
  assumes "unat (main_queue_items s) * 4096 \<le> unat (main_size s) + 4096"
    and "0 < unat (main_queue_items s)"
    and "unat (main_size s) < unat (main_queue_items s) * 4096"
    and "length (main_db s) \<le> unat (main_queue_items s)"
    and "main_db s \<noteq> []"
    and "access_tracker s = Map.empty"
    and "unat (main_size s) + 4096 < 2 ^ 64"
  shows "budget_inv (evictFromMain e s)"
proof -
  obtain k v where kv: "db_iter_oldest (main_db s) = Some (k, v)"
    using assms(5) db_iter_oldest_None by (cases "db_iter_oldest (main_db s)") auto
  then have g: "db_get (main_db s) k = Some v" by (rule db_iter_oldest_get)
  have len: "length (db_delete (main_db s) k) < length (main_db s)"
    using g by (rule length_db_delete_less)
  have u: "unat (main_queue_items s - 1) = unat (main_queue_items s) - 1"
    using assms(2) by (rule unat_pred_pos)
  have a: "(unat (main_queue_items s) - 1) * 4096 \<le> unat (main_size s)"
    using assms(1) assms(2) by arith
  have b: "length (db_delete (main_db s) k) \<le> unat (main_queue_items s) - 1"
    using len assms(4) by arith
  show ?thesis
    using kv a b u assms(6) assms(7)
    by (simp add: budget_inv_def evictFromMain_def Let_def)
qed

lemma budget_inv_put:
  assumes "budget_inv s"
  shows "budget_inv (snd (put k v e s))"
proof (cases "main_put_ok e")
  case False
  with assms show ?thesis by (simp add: put_def)
next
  case True
  define s2 where "s2 = (let s1 = s\<lparr>main_db := db_put (main_db s) k v,
                   main_queue_items := main_queue_items s + 1\<rparr>
       in if db_contains (small_db s1) k \<and> small_put_ok e
          then s1\<lparr>small_db := db_put (small_db s1) k v\<rparr> else s1)"
  have put_eq: "snd (put k v e s) =
      (if main_size s2 < main_queue_items s2 * getAverageValueSize
       then evictFromMain e s2 else s2)"
    using True by (simp add: put_def s2_def Let_def split: if_splits)
  have f: "main_db s2 = db_put (main_db s) k v"
    "main_queue_items s2 = main_queue_items s + 1"
    "main_size s2 = main_size s" "access_tracker s2 = access_tracker s"
    by (simp_all add: s2_def Let_def)
  from assms have i: "unat (main_queue_items s) * 4096 \<le> unat (main_size s)"
    "length (main_db s) \<le> unat (main_queue_items s)"
    "access_tracker s = Map.empty" "unat (main_size s) + 4096 < 2 ^ 64"
    by (simp_all add: budget_inv_def)
  have u1: "unat (main_queue_items s + 1) = Suc (unat (main_queue_items s))"
    and u2: "unat ((main_queue_items s + 1) * 4096) = Suc (unat (main_queue_items s)) * 4096"
    using unat_succ_budget [OF i(1) i(4)] by simp_all
  have len: "length (main_db s2) \<le> unat (main_queue_items s2)"
    using length_db_put [of "main_db s" k v] i(2) by (simp add: f u1)
  show ?thesis
  proof (cases "main_size s2 < main_queue_items s2 * getAverageValueSize")
    case over: True
    then have "unat (main_size s) < unat ((main_queue_items s + 1) * 4096)"
      unfolding f getAverageValueSize_def word_less_nat_alt .
    then have o: "unat (main_size s2) < unat (main_queue_items s2) * 4096"
      unfolding f u1 u2 .
    have "budget_inv (evictFromMain e s2)"
    proof (rule budget_inv_evict)
      show "unat (main_queue_items s2) * 4096 \<le> unat (main_size s2) + 4096"
        using i(1) by (simp add: f u1)
      show "0 < unat (main_queue_items s2)" by (simp add: f u1)
      show "unat (main_size s2) < unat (main_queue_items s2) * 4096" by (rule o)
      show "length (main_db s2) \<le> unat (main_queue_items s2)" by (rule len)
      show "main_db s2 \<noteq> []" by (simp add: f db_put_nonempty)
      show "access_tracker s2 = Map.empty" by (simp add: f i)
      show "unat (main_size s2) + 4096 < 2 ^ 64" using i(4) by (simp add: f)
    qed
    with over show ?thesis by (simp add: put_eq)
  next
    case within: False
    then have "\<not> unat (main_size s) < unat ((main_queue_items s + 1) * 4096)"
      unfolding f getAverageValueSize_def word_less_nat_alt .
    then have "unat (main_queue_items s2) * 4096 \<le> unat (main_size s2)"
      unfolding f u1 u2 by simp
    with len i within show ?thesis
      by (simp add: put_eq budget_inv_def f)
  qed
qed

lemma budget_inv_get:
  assumes "budget_inv s"
  shows "budget_inv (snd (snd (get k e s)))"
proof (cases "db_get (small_db s) k")
  case (Some v)
  from assms have "access_tracker s k = None" by (simp add: budget_inv_def)
  then have "quickDemotion k e s = s" by (rule quickDemotion_untracked)
  with Some assms show ?thesis by (simp add: get_def)
next
  case None
  show ?thesis
  proof (cases "db_get (main_db s) k")
    case n: None
    with None assms show ?thesis by (simp add: get_def)
  next
    case (Some v)
    obtain p s1 where sp: "shouldPromoteToSmall k e s = (p, s1)"
      by (cases "shouldPromoteToSmall k e s")
    have f: "main_db s1 = main_db s" "main_size s1 = main_size s"
      "main_queue_items s1 = main_queue_items s" "access_tracker s1 = access_tracker s"
      using shouldPromoteToSmall_fields [of k e s] sp by simp_all
    from assms have i: "unat (main_queue_items s) * 4096 \<le> unat (main_size s)"
      "length (main_db s) \<le> unat (main_queue_items s)"
      "access_tracker s = Map.empty" "unat (main_size s) + 4096 < 2 ^ 64"
      by (simp_all add: budget_inv_def)
    show ?thesis
    proof (cases p)
      case False
      with None Some sp f assms show ?thesis by (simp add: get_def budget_inv_def)
    next
      case True
      have len: "length (db_delete (main_db s) k) < length (main_db s)"
        using Some by (rule length_db_delete_less)
      then have pos: "0 < unat (main_queue_items s)" using i(2) by simp
      then have u: "unat (main_queue_items s - 1) = unat (main_queue_items s) - 1"
        by (rule unat_pred_pos)
      have a: "(unat (main_queue_items s) - 1) * 4096 \<le> unat (main_size s)"
        using i(1) by arith
      have b: "length (db_delete (main_db s) k) \<le> unat (main_queue_items s) - 1"
        using len i(2) by arith
      from True None Some sp f i(3) i(4) a b u show ?thesis
        by (simp add: get_def budget_inv_def)
    qed
  qed
qed

lemma budget_inv_step: "budget_inv s \<Longrightarrow> budget_inv (step s x)"
  by (cases x) (simp_all add: budget_inv_put budget_inv_get)

lemma budget_inv_run: "budget_inv s \<Longrightarrow> budget_inv (run ops s)"
  unfolding run_def by (induction ops arbitrary: s) (simp_all add: budget_inv_step)

lemma main_size_step: "main_size (step s x) = main_size s"
proof (cases x)
  case (Put k v e)
  then show ?thesis
    by (simp add: put_def evictFromMain_def Let_def split: option.splits prod.splits)
next
  case (Get k e)
  have "main_size (quickDemotion k e s) = main_size s"
    by (simp add: quickDemotion_def Let_def split: option.splits)
  with Get show ?thesis
    using shouldPromoteToSmall_fields(4) [of k e s]
    by (auto simp: get_def split: option.splits prod.splits bool.splits)
qed

lemma main_size_run: "main_size (run ops s) = main_size s"
  unfolding run_def by (induction ops arbitrary: s) (simp_all add: main_size_step)

lemma constructed_budget_inv:
  assumes "main_db s0 = []" and "main_queue_items s0 = 0"
    and "access_tracker s0 = Map.empty" and "unat (main_size s0) + 4096 < 2 ^ 64"
  shows "budget_inv s0"
  using assms by (simp add: budget_inv_def)

text \<open>
  C5, as the code has it. Only the main queue is kept within its budget. Starting from a
  cache with an empty main store, a main counter of 0 and nothing tracked (what the
  constructor returns on empty directories), with a main budget below \<open>2^64 - 4096\<close>,
  after every sequence of \<open>put\<close> and \<open>get\<close> calls the test of \<open>put\<close>
  (\<open>main_queue_items * 4096 > main_size\<close>) is false, the counted size and the size of the
  entries actually stored are within \<open>main_size\<close>, and \<open>main_size\<close> is unchanged. Nothing
  bounds the small and the ghost queue.
\<close>

theorem main_queue_stays_within_budget:
  assumes "main_db s0 = []" and "main_queue_items s0 = 0"
    and "access_tracker s0 = Map.empty" and "unat (main_size s0) + 4096 < 2 ^ 64"
  shows "\<not> main_size (run ops s0) < main_queue_items (run ops s0) * getAverageValueSize
         \<and> unat (main_queue_items (run ops s0)) * unat getAverageValueSize
             \<le> unat (main_size (run ops s0))
         \<and> length (main_db (run ops s0)) * unat getAverageValueSize
             \<le> unat (main_size (run ops s0))
         \<and> main_size (run ops s0) = main_size s0"
proof -
  have "budget_inv s0" using assms by (rule constructed_budget_inv)
  then have inv: "budget_inv (run ops s0)" by (rule budget_inv_run)
  then have a: "unat (main_queue_items (run ops s0)) * 4096 \<le> unat (main_size (run ops s0))"
    and b: "length (main_db (run ops s0)) \<le> unat (main_queue_items (run ops s0))"
    by (simp_all add: budget_inv_def)
  have c: "unat (main_queue_items (run ops s0) * 4096)
      = unat (main_queue_items (run ops s0)) * 4096"
    using a by (rule unat_times_budget)
  have d: "\<not> main_size (run ops s0) < main_queue_items (run ops s0) * getAverageValueSize"
    using a by (simp add: word_less_nat_alt getAverageValueSize_def c)
  have e: "length (main_db (run ops s0)) * 4096 \<le> unat (main_size (run ops s0))"
    using a b by arith
  show ?thesis
    using a d e by (simp add: getAverageValueSize_def main_size_run)
qed

text \<open>The demonstration cache after seven inserts and two promotions.\<close>

theorem main_queue_stays_within_budget_witness:
  "main_db demo_cache = [] \<and> main_queue_items demo_cache = 0
   \<and> access_tracker demo_cache = Map.empty \<and> unat (main_size demo_cache) + 4096 < 2 ^ 64
   \<and> \<not> main_size (run ops_two_small demo_cache)
         < main_queue_items (run ops_two_small demo_cache) * getAverageValueSize
   \<and> unat (main_queue_items (run ops_two_small demo_cache)) * unat getAverageValueSize
        \<le> unat (main_size (run ops_two_small demo_cache))
   \<and> length (main_db (run ops_two_small demo_cache)) * unat getAverageValueSize
        \<le> unat (main_size (run ops_two_small demo_cache))
   \<and> main_size (run ops_two_small demo_cache) = main_size demo_cache"
proof -
  have h1: "main_db demo_cache = []" by (simp add: demo_cache_def)
  have h2: "main_queue_items demo_cache = 0" by (simp add: demo_cache_def)
  have h3: "access_tracker demo_cache = Map.empty" by (simp add: demo_cache_def)
  have h4: "unat (main_size demo_cache) + 4096 < 2 ^ 64" by (simp add: demo_cache_def)
  show ?thesis
    using h1 h2 h3 h4 main_queue_stays_within_budget [OF h1 h2 h3 h4, of ops_two_small]
    by blast
qed

text \<open>
  C5 as stated fails: after two ghost hits the small queue holds two items of 4096 bytes
  against a budget of 4096, and the ghost queue holds three against a budget of 4096,
  by the counters and by the stored entries alike.
\<close>

theorem small_and_ghost_exceed_budget:
  "small_size (run ops_two_small demo_cache)
     < small_queue_items (run ops_two_small demo_cache) * getAverageValueSize
   \<and> unat (small_size (run ops_two_small demo_cache))
     < length (small_db (run ops_two_small demo_cache)) * unat getAverageValueSize
   \<and> ghost_size (run ops_two_small demo_cache)
     < ghost_queue_items (run ops_two_small demo_cache) * getAverageValueSize
   \<and> unat (ghost_size (run ops_two_small demo_cache))
     < length (ghost_db (run ops_two_small demo_cache)) * unat getAverageValueSize"
  by (simp add: model_defs demo_defs)

section \<open>Residency in the small and the main queue\<close>

lemma disjoint_SM_iff:
  "disjoint_SM s = (\<forall>j. \<not> (db_contains (small_db s) j \<and> db_contains (main_db s) j))"
  by (auto simp: disjoint_SM_def db_contains_keys)

lemma disjoint_SM_quickDemotion:
  assumes "disjoint_SM s"
  shows "disjoint_SM (quickDemotion k e s)"
  using assms
  by (auto simp: disjoint_SM_iff quickDemotion_def Let_def db_contains_put db_contains_delete
           split: option.splits)

lemma disjoint_SM_get:
  assumes "disjoint_SM s"
  shows "disjoint_SM (snd (snd (get k e s)))"
proof (cases "db_get (small_db s) k")
  case (Some v)
  with assms show ?thesis by (simp add: get_def disjoint_SM_quickDemotion)
next
  case None
  show ?thesis
  proof (cases "db_get (main_db s) k")
    case n: None
    with None assms show ?thesis by (simp add: get_def)
  next
    case (Some v)
    obtain p s1 where sp: "shouldPromoteToSmall k e s = (p, s1)"
      by (cases "shouldPromoteToSmall k e s")
    have f: "main_db s1 = main_db s" "small_db s1 = small_db s"
      using shouldPromoteToSmall_fields [of k e s] sp by simp_all
    from assms None Some sp f show ?thesis
      by (cases p) (auto simp: get_def disjoint_SM_iff db_contains_put db_contains_delete)
  qed
qed

lemma disjoint_SM_evictFromMain:
  assumes "disjoint_SM s"
  shows "disjoint_SM (evictFromMain e s)"
  using assms
  by (auto simp: disjoint_SM_iff evictFromMain_def Let_def db_contains_delete
           split: option.splits)

lemma disjoint_SM_put:
  assumes "disjoint_SM s" and "\<not> db_contains (small_db s) k"
  shows "disjoint_SM (snd (put k v e s))"
proof (cases "main_put_ok e")
  case False
  with assms show ?thesis by (simp add: put_def)
next
  case True
  define s1 where "s1 = s\<lparr>main_db := db_put (main_db s) k v,
                   main_queue_items := main_queue_items s + 1\<rparr>"
  have d: "disjoint_SM s1"
    using assms by (auto simp: disjoint_SM_iff s1_def db_contains_put)
  have "snd (put k v e s) =
      (if main_size s1 < main_queue_items s1 * getAverageValueSize
       then evictFromMain e s1 else s1)"
    using True assms(2) by (simp add: put_def s1_def Let_def)
  with d show ?thesis by (simp add: disjoint_SM_evictFromMain)
qed

lemma put_resident_small_both:
  assumes "db_contains (small_db s) k" and "main_put_ok e"
    and "\<not> main_size s < (main_queue_items s + 1) * getAverageValueSize"
  shows "db_contains (small_db (snd (put k v e s))) k
         \<and> db_contains (main_db (snd (put k v e s))) k"
  using assms by (simp add: put_def Let_def db_contains_put)

text \<open>
  C1, as the code has it. A \<open>get\<close> keeps the small and the main queue disjoint, and so
  does \<open>put(j, v)\<close> for a key \<open>j\<close> that is not in the small queue. A \<open>put(i, v)\<close> for a
  key \<open>i\<close> that is in the small queue writes to the main store first and then overwrites
  the small store: when the write to the main store succeeds and the counted main size
  stays within budget (no eviction step runs), \<open>i\<close> is in both queues afterwards.
\<close>

theorem small_main_disjoint_step:
  "(disjoint_SM s \<longrightarrow> disjoint_SM (snd (snd (get k e s))))
   \<and> (disjoint_SM s \<and> \<not> db_contains (small_db s) j \<longrightarrow> disjoint_SM (snd (put j v e s)))
   \<and> (db_contains (small_db s) i \<and> main_put_ok e
        \<and> \<not> main_size s < (main_queue_items s + 1) * getAverageValueSize \<longrightarrow>
        db_contains (small_db (snd (put i v e s))) i
        \<and> db_contains (main_db (snd (put i v e s))) i)"
  using disjoint_SM_get [of s k e] disjoint_SM_put [of s j v e]
    put_resident_small_both [of s i e v]
  by blast

text \<open>
  With A in the small queue and D, E in the main queue: reading A and inserting F keep the
  queues disjoint, overwriting A puts it in both.
\<close>

theorem small_main_disjoint_step_witness:
  "disjoint_SM (run ops_promoted demo_cache)
   \<and> disjoint_SM (snd (snd (get ''A'' env_ok (run ops_promoted demo_cache))))
   \<and> \<not> db_contains (small_db (run ops_promoted demo_cache)) ''F''
   \<and> disjoint_SM (snd (put ''F'' ''f'' env_ok (run ops_promoted demo_cache)))
   \<and> db_contains (small_db (run ops_promoted demo_cache)) ''A''
   \<and> main_put_ok env_ok
   \<and> \<not> main_size (run ops_promoted demo_cache)
        < (main_queue_items (run ops_promoted demo_cache) + 1) * getAverageValueSize
   \<and> db_contains (small_db (snd (put ''A'' ''f'' env_ok (run ops_promoted demo_cache)))) ''A''
   \<and> db_contains (main_db (snd (put ''A'' ''f'' env_ok (run ops_promoted demo_cache)))) ''A''"
  using small_main_disjoint_step [where s = "run ops_promoted demo_cache" and k = "''A''"
      and e = env_ok and j = "''F''" and v = "''f''" and i = "''A''"]
  by (simp add: model_defs demo_defs disjoint_SM_def)

text \<open>
  C1 as stated fails: after the public calls of \<open>ops_overwrite\<close> (six inserts, one read
  that promotes A, and an overwrite of A) the key A is in the small and in the main queue.
\<close>

theorem overwrite_in_small_leaves_key_in_both:
  "db_contains (small_db (run ops_promoted demo_cache)) ''A''
   \<and> db_contains (small_db (run ops_overwrite demo_cache)) ''A''
   \<and> db_contains (main_db (run ops_overwrite demo_cache)) ''A''
   \<and> \<not> disjoint_SM (run ops_overwrite demo_cache)"
  by (simp add: model_defs demo_defs disjoint_SM_def)

section \<open>Main eviction\<close>

lemma put_runs_one_eviction:
  assumes "main_put_ok e"
  shows "snd (put key val e s) =
      (if main_size (put_written key val e s)
            < main_queue_items (put_written key val e s) * getAverageValueSize
       then evictFromMain e (put_written key val e s) else put_written key val e s)"
  using assms by (simp add: put_def put_written_def Let_def)

lemma put_written_fields:
  "main_db (put_written key val e s) = db_put (main_db s) key val"
  "main_queue_items (put_written key val e s) = main_queue_items s + 1"
  "main_size (put_written key val e s) = main_size s"
  "ghost_db (put_written key val e s) = ghost_db s"
  by (simp_all add: put_written_def Let_def)

lemma evictFromMain_oldest:
  assumes "db_iter_oldest (main_db s) = Some (k_old, v_old)"
  shows "main_db (evictFromMain e s) = db_delete (main_db s) k_old"
    and "main_queue_items (evictFromMain e s) = main_queue_items s - 1"
    and "small_db (evictFromMain e s) = small_db s"
    and "ghost_db (evictFromMain e s) =
          (if \<not> db_contains (small_db s) k_old \<and> ghost_put_ok e
           then db_put (ghost_db s) k_old [] else ghost_db s)"
    and "ghost_queue_items (evictFromMain e s) =
          (if \<not> db_contains (small_db s) k_old
           then ghost_queue_items s + 1 else ghost_queue_items s)"
  using assms by (simp_all add: evictFromMain_def Let_def)

lemma ghost_keys_evictFromMain:
  "set (db_keys (ghost_db s)) \<subseteq> set (db_keys (ghost_db (evictFromMain e s)))"
proof
  fix j assume "j \<in> set (db_keys (ghost_db s))"
  then have "db_contains (ghost_db s) j" by (simp add: db_contains_keys)
  then have "db_contains (ghost_db (evictFromMain e s)) j"
    by (auto simp: evictFromMain_def Let_def db_contains_put split: option.splits)
  then show "j \<in> set (db_keys (ghost_db (evictFromMain e s)))"
    by (simp add: db_contains_keys)
qed

lemma main_size_evictFromMain: "main_size (evictFromMain e s) = main_size s"
  by (simp add: evictFromMain_def Let_def split: option.splits prod.splits)

lemma put_restores_counted_budget:
  assumes ok: "main_put_ok e"
    and within: "\<not> main_size s < main_queue_items s * getAverageValueSize"
  shows "\<not> main_size (snd (put key val e s))
           < main_queue_items (snd (put key val e s)) * getAverageValueSize"
proof (cases "main_size (put_written key val e s)
                < main_queue_items (put_written key val e s) * getAverageValueSize")
  case over: True
  obtain k v where
    first: "db_iter_oldest (main_db (put_written key val e s)) = Some (k, v)"
    using db_iter_oldest_put [of "main_db s" key val] by (auto simp: put_written_fields)
  have "main_queue_items (evictFromMain e (put_written key val e s)) = main_queue_items s"
    by (simp add: evictFromMain_oldest(2) [OF first] put_written_fields)
  moreover have "main_size (evictFromMain e (put_written key val e s)) = main_size s"
    by (simp add: main_size_evictFromMain put_written_fields)
  moreover have "snd (put key val e s) = evictFromMain e (put_written key val e s)"
    using over by (simp add: put_runs_one_eviction [OF ok])
  ultimately show ?thesis using within by simp
next
  case False
  then show ?thesis by (simp add: put_runs_one_eviction [OF ok])
qed

text \<open>
  C4, as the code has it. \<open>evictFromMain\<close> is a single step on the first entry
  \<open>k_old\<close> of the main store: it deletes \<open>k_old\<close> from the main store and decrements the
  main counter, leaves the small store alone, writes \<open>k_old\<close> with an empty value to the
  ghost store exactly when the small store does not hold \<open>k_old\<close> (counting it in the ghost
  counter whether or not the write succeeds), and drops nothing from the ghost store: every
  ghost key is still there afterwards. A \<open>put\<close> whose write to the main store succeeds runs
  this step once, when the counted main size exceeds the budget, and not at all otherwise.
  That is eviction until the main queue is within budget: whenever the counted main size
  (\<open>main_queue_items * 4096\<close>) was within \<open>main_size\<close> before the \<open>put\<close>, it is within
  \<open>main_size\<close> after it, whether or not the \<open>put\<close> drove it over in between.
\<close>

theorem main_eviction_single_step:
  assumes "db_iter_oldest (main_db s) = Some (k_old, v_old)"
  shows "main_db (evictFromMain e s) = db_delete (main_db s) k_old
     \<and> \<not> db_contains (main_db (evictFromMain e s)) k_old
     \<and> main_queue_items (evictFromMain e s) = main_queue_items s - 1
     \<and> small_db (evictFromMain e s) = small_db s
     \<and> ghost_db (evictFromMain e s) =
          (if \<not> db_contains (small_db s) k_old \<and> ghost_put_ok e
           then db_put (ghost_db s) k_old [] else ghost_db s)
     \<and> ghost_queue_items (evictFromMain e s) =
          (if \<not> db_contains (small_db s) k_old
           then ghost_queue_items s + 1 else ghost_queue_items s)
     \<and> set (db_keys (ghost_db s)) \<subseteq> set (db_keys (ghost_db (evictFromMain e s)))
     \<and> (main_put_ok e' \<longrightarrow>
          snd (put key val e' s') =
            (if main_size (put_written key val e' s')
                  < main_queue_items (put_written key val e' s') * getAverageValueSize
             then evictFromMain e' (put_written key val e' s')
             else put_written key val e' s'))
     \<and> (main_put_ok e' \<and> \<not> main_size s' < main_queue_items s' * getAverageValueSize \<longrightarrow>
          \<not> main_size (snd (put key val e' s'))
              < main_queue_items (snd (put key val e' s')) * getAverageValueSize)"
proof (intro conjI impI)
  show "\<not> db_contains (main_db (evictFromMain e s)) k_old"
    by (simp add: evictFromMain_oldest(1) [OF assms] db_contains_delete)
next
  show "set (db_keys (ghost_db s)) \<subseteq> set (db_keys (ghost_db (evictFromMain e s)))"
    by (rule ghost_keys_evictFromMain)
next
  assume "main_put_ok e'"
  then show "snd (put key val e' s') =
            (if main_size (put_written key val e' s')
                  < main_queue_items (put_written key val e' s') * getAverageValueSize
             then evictFromMain e' (put_written key val e' s')
             else put_written key val e' s')"
    by (rule put_runs_one_eviction)
next
  assume "main_put_ok e' \<and> \<not> main_size s' < main_queue_items s' * getAverageValueSize"
  then show "\<not> main_size (snd (put key val e' s'))
              < main_queue_items (snd (put key val e' s')) * getAverageValueSize"
    by (simp add: put_restores_counted_budget)
qed (simp_all add: evictFromMain_oldest [OF assms])

text \<open>
  The fourth insert into the demonstration cache drives the main queue over its budget:
  A is the first entry of the main store, it moves to the ghost store, and the main queue
  is within budget again.
\<close>

theorem main_eviction_single_step_witness:
  "db_iter_oldest (main_db (put_written ''D'' ''d'' env_ok (run ops_three demo_cache)))
     = Some (''A'', ''a'')
   \<and> \<not> db_contains (small_db (put_written ''D'' ''d'' env_ok (run ops_three demo_cache))) ''A''
   \<and> db_keys (main_db (evictFromMain env_ok
        (put_written ''D'' ''d'' env_ok (run ops_three demo_cache)))) = [''B'', ''C'', ''D'']
   \<and> ghost_db (evictFromMain env_ok
        (put_written ''D'' ''d'' env_ok (run ops_three demo_cache))) = [(''A'', [])]
   \<and> main_put_ok env_ok
   \<and> \<not> main_size (run ops_three demo_cache)
         < main_queue_items (run ops_three demo_cache) * getAverageValueSize
   \<and> main_size (put_written ''D'' ''d'' env_ok (run ops_three demo_cache))
         < main_queue_items (put_written ''D'' ''d'' env_ok (run ops_three demo_cache))
           * getAverageValueSize
   \<and> snd (put ''D'' ''d'' env_ok (run ops_three demo_cache))
       = evictFromMain env_ok (put_written ''D'' ''d'' env_ok (run ops_three demo_cache))
   \<and> \<not> main_size (snd (put ''D'' ''d'' env_ok (run ops_three demo_cache)))
         < main_queue_items (snd (put ''D'' ''d'' env_ok (run ops_three demo_cache)))
           * getAverageValueSize"
proof -
  have h: "db_iter_oldest (main_db (put_written ''D'' ''d'' env_ok (run ops_three demo_cache)))
     = Some (''A'', ''a'')"
    by (simp add: model_defs demo_defs)
  show ?thesis
    using h main_eviction_single_step [OF h, of env_ok env_ok "''D''" "''d''"
        "run ops_three demo_cache"]
    by (simp add: model_defs demo_defs)
qed

text \<open>
  C4 as stated fails in its ghost part: after the five inserts of \<open>ops_fill\<close> the ghost
  queue holds A and B, twice its budget of 4096 bytes, and its oldest key A has not been
  dropped.
\<close>

theorem ghost_queue_never_trimmed:
  "ghost_size (run ops_fill demo_cache)
     < ghost_queue_items (run ops_fill demo_cache) * getAverageValueSize
   \<and> unat (ghost_size (run ops_fill demo_cache))
     < length (ghost_db (run ops_fill demo_cache)) * unat getAverageValueSize
   \<and> db_keys (ghost_db (run ops_fill demo_cache)) = [''A'', ''B'']"
  by (simp add: model_defs demo_defs)

section \<open>Ghost hits\<close>

lemma quickDemotion_keeps:
  "ghost_db (quickDemotion k e s) = ghost_db s"
  "access_counts (quickDemotion k e s) = access_counts s"
  "access_tracker (quickDemotion k e s) = access_tracker s"
  by (simp_all add: quickDemotion_def Let_def split: option.splits)

lemma ghost_db_get: "ghost_db (snd (snd (get k e s))) = ghost_db s"
  using shouldPromoteToSmall_fields(3) [of k e s]
  by (auto simp: get_def quickDemotion_keeps split: option.splits prod.splits bool.splits)

lemma get_ghost_hit_promotes:
  assumes "db_get (small_db s) k = None" and "db_get (main_db s) k = Some v"
    and "db_contains (ghost_db s) k"
  shows "get k e s =
     (OK, Some v,
      s\<lparr>small_db := (if small_put_ok e then db_put (small_db s) k v else small_db s),
        main_db := db_delete (main_db s) k,
        small_queue_items := small_queue_items s + 1,
        main_queue_items := main_queue_items s - 1\<rparr>)"
  using assms by (simp add: get_def shouldPromoteToSmall_def)

lemma handleAccess_ghost_hit:
  assumes "db_get (small_db s) k = None" and "db_get (main_db s) k = Some v"
    and "db_contains (ghost_db s) k" and "small_put_ok e"
  shows "\<not> db_contains (ghost_db (snd (snd (handleAccess k val e s)))) k
         \<and> db_contains (small_db (snd (snd (handleAccess k val e s)))) k
         \<and> \<not> db_contains (main_db (snd (snd (handleAccess k val e s)))) k"
  using assms
  by (simp add: handleAccess_def promoteToSmall_def Let_def db_contains_put db_contains_delete)

text \<open>
  C2 at a concrete state. After the public calls of \<open>ops_ghost\<close> the key A is in the main
  and in the ghost queue and not in the small queue. \<open>get(A)\<close> returns OK and moves A from
  the main to the small queue, and A is still in the ghost queue afterwards: the public
  \<open>get\<close> never deletes from the ghost store (\<open>ghost_db_get\<close>), where \<open>handleAccess\<close> does
  (\<open>handleAccess_ghost_hit\<close>).
\<close>

theorem ghost_hit_leaves_key_in_ghost:
  "db_contains (main_db (run ops_ghost demo_cache)) ''A''
   \<and> db_contains (ghost_db (run ops_ghost demo_cache)) ''A''
   \<and> \<not> db_contains (small_db (run ops_ghost demo_cache)) ''A''
   \<and> fst (get ''A'' env_ok (run ops_ghost demo_cache)) = OK
   \<and> db_contains (small_db (snd (snd (get ''A'' env_ok (run ops_ghost demo_cache))))) ''A''
   \<and> \<not> db_contains (main_db (snd (snd (get ''A'' env_ok (run ops_ghost demo_cache))))) ''A''
   \<and> db_contains (ghost_db (snd (snd (get ''A'' env_ok (run ops_ghost demo_cache))))) ''A''"
  by (simp add: model_defs demo_defs)

section \<open>Access counting\<close>

lemma counts_at_touch: "counts_at (counts_touch m k) j = counts_at m j"
  by (simp add: counts_at_def counts_touch_def split: option.splits)

lemma counts_at_shouldPromoteToSmall:
  "counts_at (access_counts (snd (shouldPromoteToSmall k e s))) j = counts_at (access_counts s) j"
  by (simp add: shouldPromoteToSmall_def Let_def counts_at_touch)

lemma counts_at_get:
  "counts_at (access_counts (snd (snd (get k e s)))) j = counts_at (access_counts s) j"
  using counts_at_shouldPromoteToSmall [of k e s j]
  by (auto simp: get_def quickDemotion_keeps split: option.splits prod.splits bool.splits)

lemma access_tracker_get: "access_tracker (snd (snd (get k e s))) = access_tracker s"
  using shouldPromoteToSmall_fields(7) [of k e s]
  by (auto simp: get_def quickDemotion_keeps split: option.splits prod.splits bool.splits)

lemma access_put:
  "access_counts (snd (put k v e s)) = access_counts s"
  "access_tracker (snd (put k v e s)) = access_tracker s"
  by (simp_all add: put_def evictFromMain_def Let_def split: option.splits prod.splits)

lemma counts_at_step: "counts_at (access_counts (step s x)) j = counts_at (access_counts s) j"
  by (cases x) (simp_all add: counts_at_get access_put)

lemma counts_at_run: "counts_at (access_counts (run ops s)) j = counts_at (access_counts s) j"
  unfolding run_def by (induction ops arbitrary: s) (simp_all add: counts_at_step)

lemma access_tracker_step: "access_tracker (step s x) = access_tracker s"
  by (cases x) (simp_all add: access_tracker_get access_put)

lemma access_tracker_run: "access_tracker (run ops s) = access_tracker s"
  unfolding run_def by (induction ops arbitrary: s) (simp_all add: access_tracker_step)

lemma probabilistic_guard_never_true:
  assumes "access_counts s0 = Map.empty"
  shows "\<not> 1 <s counts_at (access_counts (run ops s0)) j"
proof -
  have "counts_at (access_counts (run ops s0)) j = counts_at (access_counts s0) j"
    by (rule counts_at_run)
  also have "\<dots> = 0" using assms by (simp add: counts_at_def)
  finally show ?thesis by (simp add: word_sless_alt)
qed

lemma handleAccess_counts_hit:
  assumes "db_get (small_db s) k \<noteq> None \<or> db_get (main_db s) k \<noteq> None"
  shows "counts_at (access_counts (snd (snd (handleAccess k val e s)))) k
           = counts_at (access_counts s) k + 1"
  using assms
  by (auto simp: handleAccess_def promoteToSmall_def Let_def counts_incr_def counts_at_def
           split: option.splits)

text \<open>
  C3 at a concrete state. After the five inserts of \<open>ops_fill\<close> the key D is in the main
  queue. Two \<open>get(D)\<close> both return OK, and afterwards the count of D is 0, D has no entry in
  the access tracker, and the guard \<open>count > 1\<close> of the probabilistic promotion is false.
  A \<open>get(A)\<close> that hits the small queue leaves the count of A at 0 as well. No public call
  changes a count (\<open>counts_at_run\<close>), where \<open>handleAccess\<close> increments it on every hit
  (\<open>handleAccess_counts_hit\<close>).
\<close>

theorem get_hits_do_not_count:
  "fst (get ''D'' env_ok (run ops_fill demo_cache)) = OK
   \<and> fst (get ''D'' env_ok (snd (snd (get ''D'' env_ok (run ops_fill demo_cache))))) = OK
   \<and> counts_at (access_counts (run (ops_fill @ [Get ''D'' env_ok, Get ''D'' env_ok]) demo_cache)) ''D'' = 0
   \<and> access_tracker (run (ops_fill @ [Get ''D'' env_ok, Get ''D'' env_ok]) demo_cache) ''D'' = None
   \<and> \<not> 1 <s counts_at (access_counts (run (ops_fill @ [Get ''D'' env_ok, Get ''D'' env_ok]) demo_cache)) ''D''
   \<and> fst (get ''A'' env_ok (run ops_promoted demo_cache)) = OK
   \<and> db_contains (small_db (run ops_promoted demo_cache)) ''A''
   \<and> counts_at (access_counts (snd (snd (get ''A'' env_ok (run ops_promoted demo_cache))))) ''A'' = 0
   \<and> access_tracker (snd (snd (get ''A'' env_ok (run ops_promoted demo_cache)))) ''A'' = None"
  by (simp add: model_defs demo_defs)

section \<open>Quick demotion\<close>

lemma quickDemotion_tracked:
  assumes "access_tracker s k = Some info"
    and "10000 < access_count s + 1 - last_access info \<or> count info < MIN_ACCESS_COUNT"
    and "db_get (small_db s) k = Some v" and "main_put_ok e"
  shows "db_get (main_db (quickDemotion k e s)) k = Some v
         \<and> \<not> db_contains (small_db (quickDemotion k e s)) k"
  using assms
  by (auto simp: quickDemotion_def Let_def db_get_put db_contains_delete)

text \<open>
  C8 at a concrete state. After the public calls of \<open>ops_promoted\<close> the key A is in the
  small queue, its count is below \<open>MIN_ACCESS_COUNT\<close>, and it has no entry in the access
  tracker. \<open>get(A)\<close> hits the small queue and returns OK, and A is still in the small queue
  and not in the main queue: \<open>quickDemotion\<close> demotes only keys that have a tracker entry
  (\<open>quickDemotion_tracked\<close>), and no public call ever creates one (\<open>access_tracker_run\<close>).
\<close>

theorem small_hit_is_never_demoted:
  "db_contains (small_db (run ops_promoted demo_cache)) ''A''
   \<and> access_tracker (run ops_promoted demo_cache) ''A'' = None
   \<and> counts_at (access_counts (run ops_promoted demo_cache)) ''A'' < MIN_ACCESS_COUNT
   \<and> fst (get ''A'' env_ok (run ops_promoted demo_cache)) = OK
   \<and> db_contains (small_db (snd (snd (get ''A'' env_ok (run ops_promoted demo_cache))))) ''A''
   \<and> \<not> db_contains (main_db (snd (snd (get ''A'' env_ok (run ops_promoted demo_cache))))) ''A''"
  by (simp add: model_defs demo_defs)

section \<open>A promotion whose insert fails\<close>

lemma promoteToSmall_failed_insert: "\<not> small_put_ok e \<Longrightarrow> promoteToSmall k v e s = s"
  by (simp add: promoteToSmall_def)

lemma handleAccess_failed_insert_keeps_main:
  assumes "db_get (small_db s) k = None" and "db_get (main_db s) k = Some v"
    and "\<not> small_put_ok e"
  shows "db_get (main_db (snd (snd (handleAccess k val e s)))) k = Some v
         \<and> fst (handleAccess k val e s) = OK"
  using assms
  by (simp add: handleAccess_def promoteToSmall_def Let_def)

text \<open>
  C9 at a concrete state. After the public calls of \<open>ops_ghost\<close> the key A is in the main
  queue. A \<open>get(A)\<close> during which the insert into the small store fails returns OK and the
  value found, and A is then in neither the main nor the small queue, so that the next
  \<open>get(A)\<close> misses: the public \<open>get\<close> deletes from the main store without reading the
  status of the insert. \<open>promoteToSmall\<close> at the same state leaves A in the main queue.
\<close>

theorem failed_promotion_drops_key_from_main:
  "db_contains (main_db (run ops_ghost demo_cache)) ''A''
   \<and> \<not> small_put_ok env_small_fails
   \<and> fst (get ''A'' env_small_fails (run ops_ghost demo_cache)) = OK
   \<and> fst (snd (get ''A'' env_small_fails (run ops_ghost demo_cache))) = Some ''a2''
   \<and> \<not> db_contains (main_db (snd (snd (get ''A'' env_small_fails (run ops_ghost demo_cache))))) ''A''
   \<and> \<not> db_contains (small_db (snd (snd (get ''A'' env_small_fails (run ops_ghost demo_cache))))) ''A''
   \<and> fst (get ''A'' env_ok (snd (snd (get ''A'' env_small_fails (run ops_ghost demo_cache)))))
       = NotFound
   \<and> db_contains
       (main_db (promoteToSmall ''A'' ''a2'' env_small_fails (run ops_ghost demo_cache))) ''A''"
  by (simp add: model_defs demo_defs)

end
